theory Spec2Isabelle
  imports Main "HOL-Library.Word" "HOL-Library.Sublist"
begin

unbundle bit_operations_syntax

section \<open>The process monitor and the shutdown sequence of vinitd\<close>

text \<open>
  This theory embeds \<^verbatim>\<open>pkg/vorteil/process.go\<close>: the netlink process-connector
  listener, the two registry maps \<^verbatim>\<open>procs\<close> and \<^verbatim>\<open>internal\<close>, the exit handler
  and the shutdown sequence. The package-level variables become the fields of one
  record that every function takes and returns. Whatever the code asks of the operating
  system (the executable link of a process, the process list, the boot disk, a received
  datagram) is an input of the model; whatever it does to the operating system (signals,
  sleeps, file writes, the reboot call, log lines) is appended to a trace.
\<close>

subsection \<open>Constants\<close>

type_synonym byte = "8 word"
type_synonym uint16 = "16 word"
type_synonym uint32 = "32 word"
type_synonym uint64 = "64 word"

definition procEventExit :: uint32 where
  "procEventExit = 0x80000000"

definition procEventFork :: uint32 where
  "procEventFork = 0x00000001"

definition procEventExec :: uint32 where
  "procEventExec = 0x00000002"

definition busboxScript :: string where
  "busboxScript = ''/vorteil/busybox-install.sh''"

text \<open>From the packages \<^verbatim>\<open>unix\<close> and \<^verbatim>\<open>syscall\<close>.\<close>

definition NLMSG_DONE :: uint16 where
  "NLMSG_DONE = 0x3"

definition NLMSG_HDRLEN :: int where
  "NLMSG_HDRLEN = 0x10"

definition LINUX_REBOOT_CMD_POWER_OFF :: int where
  "LINUX_REBOOT_CMD_POWER_OFF = 0x4321fedc"

definition LINUX_REBOOT_CMD_RESTART :: int where
  "LINUX_REBOOT_CMD_RESTART = 0x1234567"

text \<open>
  Modelled from the spec: the declaration of \<^verbatim>\<open>initStatus\<close> and of the status constants
  is not among the source files. The spec gives the phases as the increasing chain
  Booting, Launching, Launched, PoweringOff; the code compares them as integers.
\<close>

definition statusBooting :: int where
  "statusBooting = 0"

definition statusLaunching :: int where
  "statusLaunching = 1"

definition statusLaunched :: int where
  "statusLaunched = 2"

definition statusPoweroff :: int where
  "statusPoweroff = 3"

subsection \<open>Data\<close>

record ProcEventHeader =
  What :: uint32
  CPU :: uint32
  Timestamp :: uint64
  ProcessPid :: uint32
  ProcessTgid :: uint32

record CbID =
  Idx :: uint32
  Val :: uint32

record CnMsg =
  ID :: CbID
  Seq :: uint32
  Ack :: uint32
  Len :: uint16
  Flags :: uint16

text \<open>\<^verbatim>\<open>syscall.NlMsghdr\<close> and \<^verbatim>\<open>syscall.NetlinkMessage\<close>.\<close>

record NlMsghdr =
  nlmsg_Len :: uint32
  nlmsg_Type :: uint16
  nlmsg_Flags :: uint16
  nlmsg_Seq :: uint32
  nlmsg_Pid :: uint32

record NetlinkMessage =
  Header :: NlMsghdr
  Data :: "byte list"

text \<open>
  Modelled from the spec: the type \<^verbatim>\<open>program\<close> is declared outside the source files.
  The exit handler reads only \<^verbatim>\<open>p.cmd\<close> and \<^verbatim>\<open>p.cmd.Process\<close>, two pointers that are nil
  until the program has been started; the process handle is kept as its pid.
\<close>

datatype Cmd = Cmd (Process: "int option")

datatype program = Program (cmd: "Cmd option")

datatype LogLevel = LOG_STDERR | LOG_DEBUG | LOG_WARNING

datatype Signal = SIGINT | SIGTERM

text \<open>
  The trace. A log entry keeps the level and the format string, not the formatted
  arguments. \<open>Call_shutdown\<close> is written on entry to \<^verbatim>\<open>shutdown\<close>, before its guard, so
  that a call is visible even when the guard returns at once.
\<close>

datatype effect =
    Vlog LogLevel string
  | Call_shutdown int int
  | Kill int Signal
  | Sleep "64 word"
  | WriteFile string string
  | FlushDisk string
  | Reboot int

record vinitd =
  procs :: "uint32 \<rightharpoonup> uint32"
  internal :: "uint32 \<rightharpoonup> string"
  initStatus :: int
  trace :: "effect list"

text \<open>
  What the operating system answers while one netlink message is handled:
  \<open>Readlink_exe tgid\<close> is the result of \<^verbatim>\<open>os.Readlink("/proc/<tgid>/exe")\<close>, \<open>None\<close> when it
  returns an error; \<open>ps_Processes\<close> is the error or the (Pid, PPid) pairs of the process
  list; \<open>bootDisk\<close> is the error or the disk name.
\<close>

record env =
  Readlink_exe :: "uint32 \<Rightarrow> string option"
  ps_Processes :: "string + (int \<times> int) list"
  bootDisk :: "string + string"

subsection \<open>Logging (log.go)\<close>

definition emit :: "effect \<Rightarrow> vinitd \<Rightarrow> vinitd" where
  "emit e st = st\<lparr>trace := trace st @ [e]\<rparr>"

definition vlog :: "LogLevel \<Rightarrow> string \<Rightarrow> vinitd \<Rightarrow> vinitd" where
  "vlog level format st = emit (Vlog level format) st"

definition logAlways :: "string \<Rightarrow> vinitd \<Rightarrow> vinitd" where
  "logAlways format st = vlog LOG_DEBUG format (vlog LOG_STDERR format st)"

definition logDebug :: "string \<Rightarrow> vinitd \<Rightarrow> vinitd" where
  "logDebug format st = vlog LOG_DEBUG format st"

definition logWarn :: "string \<Rightarrow> vinitd \<Rightarrow> vinitd" where
  "logWarn format st = vlog LOG_WARNING format st"

definition logError :: "string \<Rightarrow> vinitd \<Rightarrow> vinitd" where
  "logError format st = vlog LOG_STDERR format st"

subsection \<open>killAll and shutdown\<close>

text \<open>The loop of \<^verbatim>\<open>killAll\<close> over the process list; the results of \<^verbatim>\<open>syscall.Kill\<close> are dropped.\<close>

primrec killAll_loop :: "(int \<times> int) list \<Rightarrow> vinitd \<Rightarrow> vinitd" where
  "killAll_loop [] st = st"
| "killAll_loop (p # pl) st =
     killAll_loop pl
       (if fst p > 2 \<and> snd p > 2
        then emit (Kill (fst p) SIGTERM) (emit (Kill (fst p) SIGINT) st)
        else st)"

definition killAll :: "env \<Rightarrow> vinitd \<Rightarrow> vinitd" where
  "killAll e st =
     (case ps_Processes e of
        Inl err \<Rightarrow> logError ''can not get processes: %s'' st
      | Inr pl \<Rightarrow> killAll_loop pl st)"

text \<open>The countdown \<^verbatim>\<open>for i := 3; i > 0; i--\<close>.\<close>

function countdown :: "int \<Rightarrow> vinitd \<Rightarrow> vinitd" where
  "countdown i st =
     (if i > 0
      then countdown (i - 1) (emit (Sleep 1000000000) (logAlways ''shutting down in %d...'' st))
      else st)"
  by pat_completeness auto
termination
  by (relation "measure (\<lambda>(i, st). nat i)") auto

declare countdown.simps [simp del]

text \<open>
  \<^verbatim>\<open>shutdown(cmd, timeout)\<close>. The two writes to the sysrq trigger and the reboot call
  return errors that the code drops. \<^verbatim>\<open>syscall.Reboot\<close> does not return when it succeeds;
  the model goes on as the code does when it fails, which is the harder case for every
  statement about what happens afterwards.
\<close>

definition shutdown :: "env \<Rightarrow> int \<Rightarrow> int \<Rightarrow> vinitd \<Rightarrow> vinitd" where
  "shutdown e c timeout st0 =
     (let st = emit (Call_shutdown c timeout) st0 in
      if initStatus st = statusPoweroff then st
      else
        let st = st\<lparr>initStatus := statusPoweroff\<rparr>;
            st = logAlways ''shutting down applications'' st;
            st = killAll e st;
            st = emit (Sleep (word_of_int timeout * 1000000)) st;
            st = countdown 3 st;
            st = emit (WriteFile ''/proc/sysrq-trigger'' ''s'') st;
            st = emit (WriteFile ''/proc/sysrq-trigger'' ''u'') st;
            st = (case bootDisk e of
                    Inl err \<Rightarrow> logError ''could not get disk name: %s'' st
                  | Inr p \<Rightarrow> emit (FlushDisk p) st)
        in emit (Reboot c) st)"

subsection \<open>The exit handler\<close>

text \<open>Reading a Go map of strings: a missing key reads as the empty string.\<close>

definition index_string :: "('k \<rightharpoonup> string) \<Rightarrow> 'k \<Rightarrow> string" where
  "index_string m k = (case m k of None \<Rightarrow> [] | Some s \<Rightarrow> s)"

text \<open>The loop over \<^verbatim>\<open>progs\<close>: is there a program whose command or process is nil?\<close>

primrec still_starting :: "program list \<Rightarrow> bool" where
  "still_starting [] = False"
| "still_starting (p # ps) =
     (case cmd p of
        None \<Rightarrow> True
      | Some c \<Rightarrow> (case Process c of None \<Rightarrow> True | Some pr \<Rightarrow> still_starting ps))"

definition handleExit :: "env \<Rightarrow> ProcEventHeader \<Rightarrow> program list \<Rightarrow> vinitd \<Rightarrow> vinitd" where
  "handleExit e hdr progs st =
     (if ProcessTgid hdr = ProcessPid hdr then
        if length (index_string (internal st) (ProcessTgid hdr)) > 0
        then st\<lparr>internal := (internal st)(ProcessTgid hdr := None)\<rparr>
        else if dom (procs st) = {} \<and> initStatus st \<ge> statusLaunched
        then logDebug ''apps launched but not registered'' st
        else
          let st = logDebug ''remove app pid %d, procs %v'' st;
              st = st\<lparr>procs := (procs st)(ProcessTgid hdr := None)\<rparr>
          in if dom (procs st) = {} then
               if initStatus st < statusLaunched then logDebug ''still launching'' st
               else if still_starting progs then logDebug ''apps still starting'' st
               else shutdown e LINUX_REBOOT_CMD_POWER_OFF 0
                      (logAlways ''no programs still running'' st)
             else st
      else st)"

subsection \<open>Decoding and dispatch\<close>

text \<open>\<^verbatim>\<open>binary.LittleEndian\<close>: the first byte is the least significant.\<close>

primrec le_word :: "byte list \<Rightarrow> 'a::len word" where
  "le_word [] = 0"
| "le_word (b # bs) = ucast b OR push_bit 8 (le_word bs)"

definition field :: "nat \<Rightarrow> nat \<Rightarrow> byte list \<Rightarrow> 'a::len word" where
  "field off n bs = le_word (take n (drop off bs))"

definition decode_CnMsg :: "byte list \<Rightarrow> CnMsg" where
  "decode_CnMsg bs =
     \<lparr>ID = \<lparr>Idx = field 0 4 bs, Val = field 4 4 bs\<rparr>,
      Seq = field 8 4 bs, Ack = field 12 4 bs, Len = field 16 2 bs, Flags = field 18 2 bs\<rparr>"

definition decode_ProcEventHeader :: "byte list \<Rightarrow> ProcEventHeader" where
  "decode_ProcEventHeader bs =
     \<lparr>What = field 0 4 bs, CPU = field 4 4 bs, Timestamp = field 8 8 bs,
      ProcessPid = field 16 4 bs, ProcessTgid = field 20 4 bs\<rparr>"

text \<open>
  \<^verbatim>\<open>binary.Read(buf, order, data)\<close> on a \<^verbatim>\<open>bytes.Buffer\<close>, for a structure of \<open>n\<close> bytes. It
  reads \<open>n\<close> bytes with \<^verbatim>\<open>io.ReadFull\<close>; when the buffer holds fewer, the buffer is drained,
  an error is returned and \<open>data\<close> is left as it was. The result is the error flag, the
  structure and the rest of the buffer.
\<close>

definition binary_Read :: "nat \<Rightarrow> (byte list \<Rightarrow> 'a) \<Rightarrow> byte list \<Rightarrow> 'a \<Rightarrow> bool \<times> 'a \<times> byte list" where
  "binary_Read n decode buf data =
     (if length buf < n then (True, data, [])
      else (False, decode (take n buf), drop n buf))"

definition zero_CnMsg :: CnMsg where
  "zero_CnMsg = \<lparr>ID = \<lparr>Idx = 0, Val = 0\<rparr>, Seq = 0, Ack = 0, Len = 0, Flags = 0\<rparr>"

definition zero_ProcEventHeader :: ProcEventHeader where
  "zero_ProcEventHeader = \<lparr>What = 0, CPU = 0, Timestamp = 0, ProcessPid = 0, ProcessTgid = 0\<rparr>"

text \<open>The two reads at the head of \<^verbatim>\<open>parseNetlinkMessage\<close>; both errors are dropped.\<close>

definition read_headers :: "byte list \<Rightarrow> CnMsg \<times> ProcEventHeader" where
  "read_headers d =
     (case binary_Read 20 decode_CnMsg d zero_CnMsg of
        (err1, msg, buf) \<Rightarrow>
          (case binary_Read 24 decode_ProcEventHeader buf zero_ProcEventHeader of
             (err2, hdr, buf') \<Rightarrow> (msg, hdr)))"

text \<open>
  \<^verbatim>\<open>parseNetlinkMessage\<close>. The \<^verbatim>\<open>switch\<close> on \<^verbatim>\<open>hdr.What\<close> has the fork case fall through
  to the exec case; any other value but the exit flag matches no case.
\<close>

definition parseNetlinkMessage :: "env \<Rightarrow> NetlinkMessage \<Rightarrow> program list \<Rightarrow> vinitd \<Rightarrow> vinitd" where
  "parseNetlinkMessage e m progs st =
     (if nlmsg_Type (Header m) = NLMSG_DONE then
        let hdr = snd (read_headers (Data m)) in
        if What hdr = procEventFork \<or> What hdr = procEventExec then
          (case Readlink_exe e (ProcessTgid hdr) of
             None \<Rightarrow> st
           | Some s \<Rightarrow>
               logDebug ''add application %s, pid %d, procs %d''
                 (if \<not> prefix ''/vorteil/'' s \<or> s = ''/vorteil/busybox''
                  then st\<lparr>procs := (procs st)(ProcessTgid hdr \<mapsto> ProcessTgid hdr)\<rparr>
                  else st\<lparr>internal := (internal st)(ProcessTgid hdr \<mapsto> s)\<rparr>))
        else if What hdr = procEventExit then handleExit e hdr progs st
        else st
      else st)"

subsection \<open>Receiving\<close>

text \<open>
  The address that \<^verbatim>\<open>unix.Recvfrom\<close> reports: a netlink address, or an address of any
  other family. A nil address is \<open>None\<close>.
\<close>

datatype Sockaddr =
    SockaddrNetlink (Family: uint16) (Pad: uint16) (Pid: uint32) (Groups: uint32)
  | SockaddrOther

text \<open>
  The result of \<^verbatim>\<open>unix.Recvfrom(sock, p, 0)\<close>: the byte count, the sender, the error, and
  the buffer \<^verbatim>\<open>p\<close> as the call leaves it.
\<close>

record Recvfrom_result =
  rf_nr :: int
  rf_from :: "Sockaddr option"
  rf_err :: "string option"
  rf_p :: "byte list"

text \<open>
  \<^verbatim>\<open>recv\<close>. The sender is checked before the error of the receive call. The slice
  \<^verbatim>\<open>p[:nr]\<close> is taken only when \<^verbatim>\<open>nr\<close> is at least the header length, and the receive call
  never reports more bytes than the buffer holds, so \<open>take\<close> is that slice.
  \<^verbatim>\<open>syscall.ParseNetlinkMessage\<close> belongs to the Go library and is a parameter.
\<close>

definition recv ::
  "(byte list \<Rightarrow> string + NetlinkMessage list) \<Rightarrow> Recvfrom_result \<Rightarrow> string + NetlinkMessage list" where
  "recv ParseNetlinkMessage r =
     (if (case rf_from r of
            Some (SockaddrNetlink fam pad pid grp) \<Rightarrow> pid \<noteq> 0
          | _ \<Rightarrow> True)
      then Inl ''can not create netlink sockaddr''
      else
        (case rf_err r of
           Some err \<Rightarrow> Inl err
         | None \<Rightarrow>
             if rf_nr r < NLMSG_HDRLEN
             then Inl ''number of bytes too small, received %d bytes''
             else
               (case ParseNetlinkMessage (take (nat (rf_nr r)) (rf_p r)) of
                  Inl err \<Rightarrow> Inl err
                | Inr nlmessages \<Rightarrow> Inr nlmessages)))"

text \<open>
  The inner loop of \<^verbatim>\<open>listenToProcesses\<close> over the messages of one datagram; the
  \<open>i\<close>-th message is handled in the environment \<open>es i\<close>.
\<close>

primrec parse_all :: "(nat \<Rightarrow> env) \<Rightarrow> nat \<Rightarrow> NetlinkMessage list \<Rightarrow> program list \<Rightarrow> vinitd \<Rightarrow> vinitd" where
  "parse_all es i [] progs st = st"
| "parse_all es i (m # ms) progs st =
     parse_all es (Suc i) ms progs (parseNetlinkMessage (es i) m progs st)"

text \<open>One turn of the receive loop of \<^verbatim>\<open>listenToProcesses\<close>.\<close>

definition listen_once ::
  "(byte list \<Rightarrow> string + NetlinkMessage list) \<Rightarrow> Recvfrom_result \<Rightarrow> (nat \<Rightarrow> env) \<Rightarrow>
   program list \<Rightarrow> vinitd \<Rightarrow> vinitd" where
  "listen_once ParseNetlinkMessage r es progs st =
     (case recv ParseNetlinkMessage r of
        Inl err \<Rightarrow> logWarn ''error receiving netlink message: %s'' st
      | Inr nlmessages \<Rightarrow> parse_all es 0 nlmessages progs st)"

subsection \<open>Runs\<close>

text \<open>
  What happens to the registry over time: a netlink message is handled (in the
  environment and with the program list of that moment), or the rest of the daemon
  writes \<^verbatim>\<open>initStatus\<close>.
\<close>

datatype input =
    Message env NetlinkMessage "program list"
  | Status int

fun step :: "input \<Rightarrow> vinitd \<Rightarrow> vinitd" where
  "step (Message e m progs) st = parseNetlinkMessage e m progs st"
| "step (Status s) st = st\<lparr>initStatus := s\<rparr>"

primrec run :: "input list \<Rightarrow> vinitd \<Rightarrow> vinitd" where
  "run [] st = st"
| "run (i # ins) st = run ins (step i st)"

text \<open>The header that \<^verbatim>\<open>parseNetlinkMessage\<close> decodes from a message.\<close>

definition event_of :: "NetlinkMessage \<Rightarrow> ProcEventHeader" where
  "event_of m = snd (read_headers (Data m))"

definition is_fork_or_exec :: "NetlinkMessage \<Rightarrow> bool" where
  "is_fork_or_exec m \<longleftrightarrow>
     nlmsg_Type (Header m) = NLMSG_DONE \<and>
     (What (event_of m) = procEventFork \<or> What (event_of m) = procEventExec)"

definition is_exit :: "NetlinkMessage \<Rightarrow> bool" where
  "is_exit m \<longleftrightarrow>
     nlmsg_Type (Header m) = NLMSG_DONE \<and> What (event_of m) = procEventExit"

text \<open>The condition under which line 223 stores the process in \<^verbatim>\<open>procs\<close>.\<close>

definition goes_to_procs :: "string \<Rightarrow> bool" where
  "goes_to_procs s \<longleftrightarrow> \<not> prefix ''/vorteil/'' s \<or> s = ''/vorteil/busybox''"

subsection \<open>Kinds of runs\<close>

text \<open>
  A fork or exec message whose executable link resolves to a path that line 223 stores
  in \<^verbatim>\<open>procs\<close>, and the thread-group ids that a list of such messages registers.
\<close>

fun registers_app :: "input \<Rightarrow> bool" where
  "registers_app (Message e m progs) =
     (is_fork_or_exec m \<and>
      (case Readlink_exe e (ProcessTgid (event_of m)) of
         None \<Rightarrow> False
       | Some s \<Rightarrow> goes_to_procs s))"
| "registers_app (Status s) = False"

fun registered :: "input list \<Rightarrow> uint32 list" where
  "registered [] = []"
| "registered (Message e m progs # ins) = ProcessTgid (event_of m) # registered ins"
| "registered (Status s # ins) = registered ins"

text \<open>
  An exit message that is handled while every program of the list has its command and
  its process, and the thread-group ids of the leader exits (pid = tgid) of a list.
\<close>

fun exit_started :: "input \<Rightarrow> bool" where
  "exit_started (Message e m progs) = (is_exit m \<and> \<not> still_starting progs)"
| "exit_started (Status s) = False"

fun leader_exits :: "input list \<Rightarrow> uint32 list" where
  "leader_exits [] = []"
| "leader_exits (Message e m progs # ins) =
     (if is_exit m \<and> ProcessTgid (event_of m) = ProcessPid (event_of m)
      then ProcessTgid (event_of m) # leader_exits ins
      else leader_exits ins)"
| "leader_exits (Status s # ins) = leader_exits ins"

text \<open>An exit message, with any program list, or a write of the phase.\<close>

fun exit_or_status :: "input \<Rightarrow> bool" where
  "exit_or_status (Message e m progs) = is_exit m"
| "exit_or_status (Status s) = True"

text \<open>
  A run agrees with a classification \<open>app\<close> of the thread-group ids when every fork or
  exec message whose executable link resolves has a path that goes to \<^verbatim>\<open>procs\<close> exactly
  for the ids that \<open>app\<close> holds of.
\<close>

fun classified_by :: "(uint32 \<Rightarrow> bool) \<Rightarrow> input \<Rightarrow> bool" where
  "classified_by app (Message e m progs) =
     (if is_fork_or_exec m
      then (case Readlink_exe e (ProcessTgid (event_of m)) of
              None \<Rightarrow> True
            | Some s \<Rightarrow> goes_to_procs s = app (ProcessTgid (event_of m)))
      else True)"
| "classified_by app (Status s) = True"

subsection \<open>Two callers of shutdown\<close>

text \<open>
  \<^verbatim>\<open>shutdown\<close> has two callers: the exit handler, on the goroutine of the listener, and
  \<^verbatim>\<open>SystemPanic\<close> of log.go, on whatever goroutine meets a fatal error. Its guard is a plain
  read of \<^verbatim>\<open>initStatus\<close> (line 92) followed by a plain write (line 96); the code takes no
  lock and uses no atomic operation, so the other caller can run between any two
  statements. A caller is cut into three steps: the read of the guard, the statements
  from the write of line 96 to the flush of line 118, and the reboot call of line 120.
  Running the steps of one caller without interruption is one of the executions that
  the real program has, so every schedule of these steps is an execution of the code.
\<close>

datatype pc = At_guard | At_steps | At_reboot | Returned

definition shutdown_steps :: "env \<Rightarrow> int \<Rightarrow> vinitd \<Rightarrow> vinitd" where
  "shutdown_steps e timeout st0 =
     (let st = st0\<lparr>initStatus := statusPoweroff\<rparr>;
          st = logAlways ''shutting down applications'' st;
          st = killAll e st;
          st = emit (Sleep (word_of_int timeout * 1000000)) st;
          st = countdown 3 st;
          st = emit (WriteFile ''/proc/sysrq-trigger'' ''s'') st;
          st = emit (WriteFile ''/proc/sysrq-trigger'' ''u'') st
      in (case bootDisk e of
            Inl err \<Rightarrow> logError ''could not get disk name: %s'' st
          | Inr p \<Rightarrow> emit (FlushDisk p) st))"

text \<open>A caller is the environment it runs in and the two arguments of its call.\<close>

type_synonym caller = "env \<times> int \<times> int"

fun caller_step :: "caller \<Rightarrow> pc \<times> vinitd \<Rightarrow> pc \<times> vinitd" where
  "caller_step (e, c, timeout) (At_guard, st) =
     (if initStatus st = statusPoweroff
      then (Returned, emit (Call_shutdown c timeout) st)
      else (At_steps, emit (Call_shutdown c timeout) st))"
| "caller_step (e, c, timeout) (At_steps, st) = (At_reboot, shutdown_steps e timeout st)"
| "caller_step (e, c, timeout) (At_reboot, st) = (Returned, emit (Reboot c) st)"
| "caller_step (e, c, timeout) (Returned, st) = (Returned, st)"

text \<open>
  Two callers \<open>a\<close> and \<open>b\<close> on the shared state; \<open>True\<close> in the schedule lets \<open>a\<close> take
  its next step, \<open>False\<close> lets \<open>b\<close>.
\<close>

fun race_step :: "caller \<Rightarrow> caller \<Rightarrow> bool \<Rightarrow> pc \<times> pc \<times> vinitd \<Rightarrow> pc \<times> pc \<times> vinitd" where
  "race_step a b True (p, q, st) = (case caller_step a (p, st) of (p', st') \<Rightarrow> (p', q, st'))"
| "race_step a b False (p, q, st) = (case caller_step b (q, st) of (q', st') \<Rightarrow> (p, q', st'))"

primrec race :: "caller \<Rightarrow> caller \<Rightarrow> bool list \<Rightarrow> pc \<times> pc \<times> vinitd \<Rightarrow> pc \<times> pc \<times> vinitd" where
  "race a b [] s = s"
| "race a b (x # xs) s = race a b xs (race_step a b x s)"

subsection \<open>Reading the trace\<close>

fun is_log :: "effect \<Rightarrow> bool" where
  "is_log (Vlog l f) = True"
| "is_log x = False"

fun is_call :: "effect \<Rightarrow> bool" where
  "is_call (Call_shutdown c t) = True"
| "is_call x = False"

fun is_reboot :: "effect \<Rightarrow> bool" where
  "is_reboot (Reboot c) = True"
| "is_reboot x = False"

text \<open>Everything in the trace but the log lines.\<close>

definition actions :: "effect list \<Rightarrow> effect list" where
  "actions tr = filter (\<lambda>x. \<not> is_log x) tr"

text \<open>How often \<^verbatim>\<open>shutdown\<close> was called, and how often the reboot call was made.\<close>

definition calls :: "effect list \<Rightarrow> nat" where
  "calls tr = length (filter is_call tr)"

definition reboots :: "effect list \<Rightarrow> nat" where
  "reboots tr = length (filter is_reboot tr)"

subsection \<open>Hand-built messages\<close>

text \<open>
  A process-connector message as the kernel sends it: twenty bytes of connector header
  (here zero), then the event header in little-endian order with \<^verbatim>\<open>CPU\<close> and
  \<^verbatim>\<open>Timestamp\<close> zero.
\<close>

definition enc32 :: "uint32 \<Rightarrow> byte list" where
  "enc32 w = [ucast w, ucast (drop_bit 8 w), ucast (drop_bit 16 w), ucast (drop_bit 24 w)]"

definition event_msg :: "uint32 \<Rightarrow> uint32 \<Rightarrow> uint32 \<Rightarrow> NetlinkMessage" where
  "event_msg what pid tgid =
     \<lparr>Header = \<lparr>nlmsg_Len = 60, nlmsg_Type = NLMSG_DONE, nlmsg_Flags = 0,
                 nlmsg_Seq = 0, nlmsg_Pid = 0\<rparr>,
      Data = replicate 20 0 @ enc32 what @ replicate 12 0 @ enc32 pid @ enc32 tgid\<rparr>"

text \<open>An environment in which every executable link resolves to the given path.\<close>

definition env_exe :: "string \<Rightarrow> env" where
  "env_exe s = \<lparr>Readlink_exe = (\<lambda>tgid. Some s), ps_Processes = Inr [], bootDisk = Inr ''/dev/sda''\<rparr>"

text \<open>The registry as \<^verbatim>\<open>listenToProcesses\<close> creates it, in a given phase.\<close>

definition start :: "int \<Rightarrow> vinitd" where
  "start s = \<lparr>procs = Map.empty, internal = Map.empty, initStatus = s, trace = []\<rparr>"

section \<open>Properties\<close>

subsection \<open>Decoding\<close>

lemma le_word_enc32: "le_word (enc32 w) = w"
  unfolding enc32_def
  apply (simp add: bit_eq_iff bit_simps)
  apply (auto simp: bit_simps)
  subgoal for n by (cases "n < 24") auto
  done

lemma length_enc32: "length (enc32 w) = 4"
  by (simp add: enc32_def)

lemma le_word_zeros: "le_word (replicate n 0) = 0"
  by (induction n) simp_all

lemma event_of_event_msg:
  "event_of (event_msg what pid tgid) =
     \<lparr>What = what, CPU = 0, Timestamp = 0, ProcessPid = pid, ProcessTgid = tgid\<rparr>"
  by (simp add: event_of_def event_msg_def read_headers_def binary_Read_def
      decode_ProcEventHeader_def field_def length_enc32 le_word_enc32 le_word_zeros)

lemma type_event_msg: "nlmsg_Type (Header (event_msg what pid tgid)) = NLMSG_DONE"
  by (simp add: event_msg_def)

lemma read_headers_short:
  "length d < 44 \<Longrightarrow> snd (read_headers d) = zero_ProcEventHeader"
  by (simp add: read_headers_def binary_Read_def)

subsection \<open>What each function leaves alone\<close>

lemma emit_simps:
  "procs (emit x st) = procs st"
  "internal (emit x st) = internal st"
  "initStatus (emit x st) = initStatus st"
  by (simp_all add: emit_def)

lemma trace_emit: "trace (emit x st) = trace st @ [x]"
  by (simp add: emit_def)

lemma vlog_simps:
  "procs (vlog l f st) = procs st"
  "internal (vlog l f st) = internal st"
  "initStatus (vlog l f st) = initStatus st"
  "trace (vlog l f st) = trace st @ [Vlog l f]"
  by (simp_all add: vlog_def emit_simps trace_emit)

lemma actions_append: "actions (xs @ ys) = actions xs @ actions ys"
  by (simp add: actions_def)

lemma calls_append: "calls (xs @ ys) = calls xs + calls ys"
  by (simp add: calls_def)

lemma reboots_append: "reboots (xs @ ys) = reboots xs + reboots ys"
  by (simp add: reboots_def)

lemma counts_Nil: "calls [] = 0" "reboots [] = 0"
  by (simp_all add: calls_def reboots_def)

lemma calls_actions: "calls (actions tr) = calls tr"
  unfolding calls_def actions_def
  by (induction tr) (auto elim: is_call.elims)

lemma reboots_actions: "reboots (actions tr) = reboots tr"
  unfolding reboots_def actions_def
  by (induction tr) (auto elim: is_reboot.elims)

lemma logDebug_simps:
  "procs (logDebug f st) = procs st"
  "internal (logDebug f st) = internal st"
  "initStatus (logDebug f st) = initStatus st"
  "actions (trace (logDebug f st)) = actions (trace st)"
  by (simp_all add: logDebug_def vlog_simps actions_def)

lemma logAlways_simps:
  "procs (logAlways f st) = procs st"
  "internal (logAlways f st) = internal st"
  "initStatus (logAlways f st) = initStatus st"
  "actions (trace (logAlways f st)) = actions (trace st)"
  by (simp_all add: logAlways_def vlog_simps actions_def)

lemma logError_simps:
  "procs (logError f st) = procs st"
  "internal (logError f st) = internal st"
  "initStatus (logError f st) = initStatus st"
  "actions (trace (logError f st)) = actions (trace st)"
  by (simp_all add: logError_def vlog_simps actions_def)

lemma logWarn_simps:
  "procs (logWarn f st) = procs st"
  "internal (logWarn f st) = internal st"
  "initStatus (logWarn f st) = initStatus st"
  "actions (trace (logWarn f st)) = actions (trace st)"
  by (simp_all add: logWarn_def vlog_simps actions_def)

lemma actions_emit:
  "actions (trace (emit x st)) = actions (trace st) @ (if is_log x then [] else [x])"
  by (simp add: trace_emit actions_def)

lemma calls_emit:
  "calls (trace (emit x st)) = calls (trace st) + (if is_call x then 1 else 0)"
  by (simp add: trace_emit calls_def)

lemma reboots_emit:
  "reboots (trace (emit x st)) = reboots (trace st) + (if is_reboot x then 1 else 0)"
  by (simp add: trace_emit reboots_def)

lemma count_log_simps:
  "calls (trace (vlog l f st)) = calls (trace st)"
  "reboots (trace (vlog l f st)) = reboots (trace st)"
  "calls (trace (logDebug f st)) = calls (trace st)"
  "reboots (trace (logDebug f st)) = reboots (trace st)"
  "calls (trace (logAlways f st)) = calls (trace st)"
  "reboots (trace (logAlways f st)) = reboots (trace st)"
  "calls (trace (logError f st)) = calls (trace st)"
  "reboots (trace (logError f st)) = reboots (trace st)"
  "calls (trace (logWarn f st)) = calls (trace st)"
  "reboots (trace (logWarn f st)) = reboots (trace st)"
  by (simp_all add: logDebug_def logAlways_def logError_def logWarn_def vlog_def
      calls_emit reboots_emit)

text \<open>killAll only sends signals and logs.\<close>

lemma killAll_loop_frame:
  "procs (killAll_loop pl st) = procs st \<and>
   internal (killAll_loop pl st) = internal st \<and>
   initStatus (killAll_loop pl st) = initStatus st \<and>
   calls (trace (killAll_loop pl st)) = calls (trace st) \<and>
   reboots (trace (killAll_loop pl st)) = reboots (trace st)"
  by (induction pl arbitrary: st) (simp_all add: emit_simps calls_emit reboots_emit)

lemma killAll_frame:
  "procs (killAll e st) = procs st \<and>
   internal (killAll e st) = internal st \<and>
   initStatus (killAll e st) = initStatus st \<and>
   calls (trace (killAll e st)) = calls (trace st) \<and>
   reboots (trace (killAll e st)) = reboots (trace st)"
  by (simp add: killAll_def killAll_loop_frame logError_simps count_log_simps
      split: sum.split)

lemma countdown_frame:
  "procs (countdown i st) = procs st \<and>
   internal (countdown i st) = internal st \<and>
   initStatus (countdown i st) = initStatus st \<and>
   calls (trace (countdown i st)) = calls (trace st) \<and>
   reboots (trace (countdown i st)) = reboots (trace st)"
proof (induction i st rule: countdown.induct)
  case (1 i st)
  show ?case
  proof (cases "i > 0")
    case True
    with 1 show ?thesis
      by (subst (1 2 3 4 5) countdown.simps)
        (simp add: emit_simps logAlways_simps count_log_simps calls_emit reboots_emit)
  next
    case False
    then show ?thesis by (simp add: countdown.simps)
  qed
qed

text \<open>What shutdown does to the registry, the phase and the counts.\<close>

lemma shutdown_frame:
  "procs (shutdown e c t st) = procs st \<and>
   internal (shutdown e c t st) = internal st \<and>
   initStatus (shutdown e c t st) = statusPoweroff \<and>
   calls (trace (shutdown e c t st)) = Suc (calls (trace st)) \<and>
   reboots (trace (shutdown e c t st)) =
     (if initStatus st = statusPoweroff then reboots (trace st) else Suc (reboots (trace st)))"
  by (simp add: shutdown_def Let_def emit_simps calls_emit reboots_emit killAll_frame
      countdown_frame logAlways_simps logError_simps count_log_simps split: sum.split)

lemma actions_vlog: "actions (trace (vlog l f st)) = actions (trace st)"
  by (simp add: vlog_simps actions_def)

lemma shutdown_last:
  "initStatus st \<noteq> statusPoweroff \<Longrightarrow>
   trace (shutdown e c t st) \<noteq> [] \<and> last (trace (shutdown e c t st)) = Reboot c"
  by (simp add: shutdown_def Let_def emit_simps trace_emit)

lemma handleExit_launching:
  "initStatus st < statusLaunched \<Longrightarrow>
   actions (trace (handleExit e hdr progs st)) = actions (trace st) \<and>
   initStatus (handleExit e hdr progs st) = initStatus st"
  by (simp add: handleExit_def Let_def logDebug_simps)

subsection \<open>The shutdown sequence\<close>

text \<open>
  Claim C5. Once \<^verbatim>\<open>shutdown\<close> is entered in a phase other than PoweringOff, the reboot
  call with the given command is made, whatever the environment answers: the process
  list may fail to load and the boot disk may fail to resolve (the results of the
  signals, of the two sysrq writes and of the flush are not even looked at). The reboot
  call is the last entry of the trace, it is the only reboot call the sequence adds, and
  the phase is PoweringOff afterwards.
\<close>

theorem shutdown_reaches_reboot:
  "initStatus st \<noteq> statusPoweroff \<Longrightarrow>
   last (trace (shutdown e c t st)) = Reboot c \<and>
   reboots (trace (shutdown e c t st)) = Suc (reboots (trace st)) \<and>
   initStatus (shutdown e c t st) = statusPoweroff"
  using shutdown_last [of st e c t] shutdown_frame [of e c t st] by simp

theorem shutdown_reaches_reboot_witness:
  "initStatus (start statusLaunched) \<noteq> statusPoweroff \<and>
   last (trace (shutdown \<lparr>Readlink_exe = Map.empty, ps_Processes = Inl ''no process list'',
                           bootDisk = Inl ''no boot disk''\<rparr>
                  LINUX_REBOOT_CMD_RESTART 0 (start statusLaunched))) =
     Reboot LINUX_REBOOT_CMD_RESTART"
  using shutdown_reaches_reboot [of "start statusLaunched"
      "\<lparr>Readlink_exe = Map.empty, ps_Processes = Inl ''no process list'',
        bootDisk = Inl ''no boot disk''\<rparr>" LINUX_REBOOT_CMD_RESTART 0]
  by (simp add: start_def statusLaunched_def statusPoweroff_def)

subsection \<open>Exits during the launch window\<close>

text \<open>
  Claim C6. A leader exit (pid = tgid) handled while the phase is below Launched never
  calls \<^verbatim>\<open>shutdown\<close>: the trace gains log lines only (no call of shutdown, no signal, no
  write, no reboot) and the phase stays as it was. This holds whatever the two maps
  hold, so also when \<^verbatim>\<open>procs\<close> is empty before the event or becomes empty by it.
\<close>

theorem exit_before_launched_no_shutdown:
  "ProcessTgid hdr = ProcessPid hdr \<Longrightarrow> initStatus st < statusLaunched \<Longrightarrow>
   actions (trace (handleExit e hdr progs st)) = actions (trace st) \<and>
   calls (trace (handleExit e hdr progs st)) = calls (trace st) \<and>
   initStatus (handleExit e hdr progs st) = initStatus st"
  using handleExit_launching [of st e hdr progs]
    calls_actions [of "trace (handleExit e hdr progs st)"] calls_actions [of "trace st"]
  by simp

theorem exit_before_launched_no_shutdown_witness:
  "ProcessTgid (event_of (event_msg procEventExit 100 100)) =
     ProcessPid (event_of (event_msg procEventExit 100 100)) \<and>
   initStatus ((start statusLaunching)\<lparr>procs := [100 \<mapsto> 100]\<rparr>) < statusLaunched \<and>
   calls (trace (handleExit (env_exe ''/bin/app'') (event_of (event_msg procEventExit 100 100))
                   [Program (Some (Cmd (Some 100)))]
                   ((start statusLaunching)\<lparr>procs := [100 \<mapsto> 100]\<rparr>))) = 0"
  using exit_before_launched_no_shutdown [of "event_of (event_msg procEventExit 100 100)"
      "(start statusLaunching)\<lparr>procs := [100 \<mapsto> 100]\<rparr>" "env_exe ''/bin/app''"
      "[Program (Some (Cmd (Some 100)))]"]
  by (simp add: event_of_event_msg start_def statusLaunching_def statusLaunched_def calls_def)

subsection \<open>Messages that are skipped\<close>

text \<open>
  Claim C8. A message whose data is shorter than the connector header (20 bytes) plus
  the event header (24 bytes), or whose netlink type is not \<^verbatim>\<open>NLMSG_DONE\<close>, is skipped:
  \<^verbatim>\<open>parseNetlinkMessage\<close> returns the state it was given, so neither map changes, nothing
  is dispatched and nothing is logged. Decoding has no failing branch: a short read
  only returns an error, which the code drops, and leaves the header zero.
\<close>

theorem parse_skips_short_or_other:
  "length (Data m) < 44 \<or> nlmsg_Type (Header m) \<noteq> NLMSG_DONE \<Longrightarrow>
   parseNetlinkMessage e m progs st = st"
  by (auto simp: parseNetlinkMessage_def Let_def read_headers_short zero_ProcEventHeader_def
      procEventFork_def procEventExec_def procEventExit_def)

theorem parse_skips_short_or_other_witness:
  "(length (Data ((event_msg procEventFork 100 100)\<lparr>Data := replicate 20 0 @ enc32 procEventFork\<rparr>)) < 44 \<or>
    nlmsg_Type (Header ((event_msg procEventFork 100 100)\<lparr>Data := replicate 20 0 @ enc32 procEventFork\<rparr>))
      \<noteq> NLMSG_DONE) \<and>
   parseNetlinkMessage (env_exe ''/bin/app'')
     ((event_msg procEventFork 100 100)\<lparr>Data := replicate 20 0 @ enc32 procEventFork\<rparr>) []
     (start statusLaunched) = start statusLaunched"
  using parse_skips_short_or_other
    [of "(event_msg procEventFork 100 100)\<lparr>Data := replicate 20 0 @ enc32 procEventFork\<rparr>"
      "env_exe ''/bin/app''" "[]" "start statusLaunched"]
  by (simp add: length_enc32)

subsection \<open>The three kinds of message\<close>

lemma parse_fork_or_exec:
  "is_fork_or_exec m \<Longrightarrow>
   parseNetlinkMessage e m progs st =
     (case Readlink_exe e (ProcessTgid (event_of m)) of
        None \<Rightarrow> st
      | Some s \<Rightarrow>
          logDebug ''add application %s, pid %d, procs %d''
            (if goes_to_procs s
             then st\<lparr>procs := (procs st)(ProcessTgid (event_of m) \<mapsto> ProcessTgid (event_of m))\<rparr>
             else st\<lparr>internal := (internal st)(ProcessTgid (event_of m) \<mapsto> s)\<rparr>))"
  by (simp add: parseNetlinkMessage_def is_fork_or_exec_def event_of_def goes_to_procs_def Let_def
      split: option.split)

lemma fork_not_exit: "procEventFork \<noteq> procEventExit" "procEventExec \<noteq> procEventExit"
  by (simp_all add: procEventFork_def procEventExec_def procEventExit_def)

lemma parse_exit:
  "is_exit m \<Longrightarrow> parseNetlinkMessage e m progs st = handleExit e (event_of m) progs st"
  by (auto simp: parseNetlinkMessage_def is_exit_def event_of_def Let_def
      procEventFork_def procEventExec_def procEventExit_def)

lemma parse_other:
  "\<not> is_fork_or_exec m \<Longrightarrow> \<not> is_exit m \<Longrightarrow> parseNetlinkMessage e m progs st = st"
  by (auto simp: parseNetlinkMessage_def is_exit_def is_fork_or_exec_def event_of_def Let_def)

lemma is_fork_or_exec_event_msg:
  "is_fork_or_exec (event_msg procEventFork p t)" "is_fork_or_exec (event_msg procEventExec p t)"
  by (simp_all add: is_fork_or_exec_def event_of_event_msg type_event_msg)

lemma is_exit_event_msg: "is_exit (event_msg procEventExit p t)"
  by (simp add: is_exit_def event_of_event_msg type_event_msg)

subsection \<open>Classification of a new process\<close>

text \<open>
  Claim C1, as amended. For a fork or exec message whose executable link resolves to the
  path \<open>s\<close>: when \<open>s\<close> starts with \<^verbatim>\<open>/vorteil/\<close> and is not \<^verbatim>\<open>/vorteil/busybox\<close>, the
  thread-group id is recorded in \<^verbatim>\<open>internal\<close> with \<open>s\<close> and \<^verbatim>\<open>procs\<close> is unchanged; for every
  other path (any path outside \<^verbatim>\<open>/vorteil/\<close>, and \<^verbatim>\<open>/vorteil/busybox\<close> itself) the id is
  stored in \<^verbatim>\<open>procs\<close> and \<^verbatim>\<open>internal\<close> is unchanged.
\<close>

theorem fork_exec_classification:
  assumes "is_fork_or_exec m" and "Readlink_exe e (ProcessTgid (event_of m)) = Some s"
  shows "if prefix ''/vorteil/'' s \<and> s \<noteq> ''/vorteil/busybox''
         then internal (parseNetlinkMessage e m progs st) =
                (internal st)(ProcessTgid (event_of m) \<mapsto> s) \<and>
              procs (parseNetlinkMessage e m progs st) = procs st
         else procs (parseNetlinkMessage e m progs st) =
                (procs st)(ProcessTgid (event_of m) \<mapsto> ProcessTgid (event_of m)) \<and>
              internal (parseNetlinkMessage e m progs st) = internal st"
  using assms by (simp add: parse_fork_or_exec goes_to_procs_def logDebug_simps)

theorem fork_exec_classification_witness:
  "is_fork_or_exec (event_msg procEventFork 200 200) \<and>
   Readlink_exe (env_exe busboxScript) (ProcessTgid (event_of (event_msg procEventFork 200 200)))
     = Some busboxScript \<and>
   internal (parseNetlinkMessage (env_exe busboxScript) (event_msg procEventFork 200 200) []
      (start statusLaunching)) = [200 \<mapsto> busboxScript] \<and>
   procs (parseNetlinkMessage (env_exe busboxScript) (event_msg procEventFork 200 200) []
      (start statusLaunching)) = Map.empty"
  using fork_exec_classification [of "event_msg procEventFork 200 200" "env_exe busboxScript"
      busboxScript "[]" "start statusLaunching"]
  by (simp add: is_fork_or_exec_event_msg event_of_event_msg env_exe_def busboxScript_def start_def)

text \<open>
  The claim as first stated fails: a fork whose executable is \<^verbatim>\<open>/vorteil/app\<close> leaves
  \<^verbatim>\<open>procs\<close> empty and records the process in \<^verbatim>\<open>internal\<close>, and the embedded shell
  \<^verbatim>\<open>/vorteil/busybox\<close> goes to \<^verbatim>\<open>procs\<close>, not to \<^verbatim>\<open>internal\<close>.
\<close>

theorem app_under_vorteil_counterexample:
  "dom (procs (parseNetlinkMessage (env_exe ''/vorteil/app'') (event_msg procEventFork 100 100) []
      (start statusLaunching))) = {} \<and>
   internal (parseNetlinkMessage (env_exe ''/vorteil/app'') (event_msg procEventFork 100 100) []
      (start statusLaunching)) = [100 \<mapsto> ''/vorteil/app''] \<and>
   procs (parseNetlinkMessage (env_exe ''/vorteil/busybox'') (event_msg procEventFork 100 100) []
      (start statusLaunching)) = [100 \<mapsto> 100] \<and>
   dom (internal (parseNetlinkMessage (env_exe ''/vorteil/busybox'') (event_msg procEventFork 100 100) []
      (start statusLaunching))) = {}"
  by (simp add: parse_fork_or_exec is_fork_or_exec_event_msg event_of_event_msg env_exe_def
      goes_to_procs_def logDebug_simps start_def)

subsection \<open>Datagrams from other senders\<close>

text \<open>
  Claim C9. When the sender that \<^verbatim>\<open>Recvfrom\<close> reports is not a netlink address with
  pid 0 (it is nil, of another family, or a netlink address with another pid), \<^verbatim>\<open>recv\<close>
  returns an error, whatever the buffer holds and whatever the parser would make of it;
  the turn of the receive loop then only logs a warning: both maps and the phase are
  unchanged and nothing is dispatched.
\<close>

theorem recv_rejects_other_senders:
  assumes "\<forall>fam pad grp. rf_from r \<noteq> Some (SockaddrNetlink fam pad 0 grp)"
  shows "recv P r = Inl ''can not create netlink sockaddr'' \<and>
         procs (listen_once P r es progs st) = procs st \<and>
         internal (listen_once P r es progs st) = internal st \<and>
         initStatus (listen_once P r es progs st) = initStatus st \<and>
         actions (trace (listen_once P r es progs st)) = actions (trace st)"
proof -
  have "recv P r = Inl ''can not create netlink sockaddr''"
    using assms by (auto simp: recv_def split: option.splits Sockaddr.splits)
  then show ?thesis
    by (simp add: listen_once_def logWarn_simps)
qed

theorem recv_rejects_other_senders_witness:
  "(\<forall>fam pad grp. rf_from \<lparr>rf_nr = 60, rf_from = Some (SockaddrNetlink 16 0 4321 1), rf_err = None,
         rf_p = replicate 1024 0\<rparr> \<noteq> Some (SockaddrNetlink fam pad 0 grp)) \<and>
   procs (listen_once (\<lambda>b. Inr [event_msg procEventFork 100 100])
      \<lparr>rf_nr = 60, rf_from = Some (SockaddrNetlink 16 0 4321 1), rf_err = None,
        rf_p = replicate 1024 0\<rparr>
      (\<lambda>i. env_exe ''/bin/app'') [] (start statusLaunching)) = Map.empty"
  using recv_rejects_other_senders [of
      "\<lparr>rf_nr = 60, rf_from = Some (SockaddrNetlink 16 0 4321 1), rf_err = None,
        rf_p = replicate 1024 0\<rparr>"
      "\<lambda>b. Inr [event_msg procEventFork 100 100]" "\<lambda>i. env_exe ''/bin/app''" "[]"
      "start statusLaunching"]
  by (simp add: start_def)

subsection \<open>What the exit handler can change\<close>

lemma handleExit_not_leader:
  "ProcessTgid hdr \<noteq> ProcessPid hdr \<Longrightarrow> handleExit e hdr progs st = st"
  by (simp add: handleExit_def)

lemma handleExit_internal_cases:
  "internal (handleExit e hdr progs st) = internal st \<or>
   internal (handleExit e hdr progs st) = (internal st)(ProcessTgid hdr := None)"
  by (simp add: handleExit_def Let_def logDebug_simps logAlways_simps shutdown_frame)

lemma handleExit_procs_cases:
  "procs (handleExit e hdr progs st) = procs st \<or>
   procs (handleExit e hdr progs st) = (procs st)(ProcessTgid hdr := None)"
  by (simp add: handleExit_def Let_def logDebug_simps logAlways_simps shutdown_frame)

lemma handleExit_dom:
  "dom (internal (handleExit e hdr progs st)) \<subseteq> dom (internal st)"
  "dom (procs (handleExit e hdr progs st)) \<subseteq> dom (procs st)"
  using handleExit_internal_cases [of e hdr progs st] handleExit_procs_cases [of e hdr progs st]
  by (auto split: if_splits)

lemma handleExit_internal_Some:
  "internal (handleExit e hdr progs st) t = Some s \<Longrightarrow> internal st t = Some s"
  using handleExit_internal_cases [of e hdr progs st]
  by (auto split: if_splits)

lemma handleExit_procs_Some:
  "procs (handleExit e hdr progs st) t = Some s \<Longrightarrow> procs st t = Some s"
  using handleExit_procs_cases [of e hdr progs st]
  by (auto split: if_splits)

text \<open>Every path that the listener stores in internal starts with /vorteil/.\<close>

lemma step_internal_paths:
  assumes "\<forall>t s. internal st t = Some s \<longrightarrow> prefix ''/vorteil/'' s"
  shows "\<forall>t s. internal (step i st) t = Some s \<longrightarrow> prefix ''/vorteil/'' s"
proof (cases i)
  case (Message e m progs)
  consider "is_fork_or_exec m" | "is_exit m" | "\<not> is_fork_or_exec m" "\<not> is_exit m"
    by blast
  then show ?thesis
  proof cases
    case 1
    with Message assms show ?thesis
      by (auto simp: parse_fork_or_exec logDebug_simps goes_to_procs_def
          split: option.splits if_splits)
  next
    case 2
    with Message assms show ?thesis
      by (auto simp: parse_exit dest: handleExit_internal_Some)
  next
    case 3
    with Message assms show ?thesis
      by (simp add: parse_other)
  qed
next
  case (Status s)
  with assms show ?thesis by simp
qed

lemma run_internal_paths:
  "\<forall>t s. internal st t = Some s \<longrightarrow> prefix ''/vorteil/'' s \<Longrightarrow>
   \<forall>t s. internal (run ins st) t = Some s \<longrightarrow> prefix ''/vorteil/'' s"
proof (induction ins arbitrary: st)
  case Nil
  then show ?case by simp
next
  case (Cons i ins)
  from Cons.prems have "\<forall>t s. internal (step i st) t = Some s \<longrightarrow> prefix ''/vorteil/'' s"
    by (rule step_internal_paths)
  then show ?case using Cons.IH by simp
qed

lemma handleExit_internal_branch:
  assumes "ProcessTgid hdr = ProcessPid hdr" and "internal st (ProcessTgid hdr) = Some s"
    and "s \<noteq> []"
  shows "handleExit e hdr progs st = st\<lparr>internal := (internal st)(ProcessTgid hdr := None)\<rparr>"
  using assms by (simp add: handleExit_def index_string_def)

subsection \<open>Exit of an internal process\<close>

text \<open>
  Claim C7. In every state that the listener reaches from its start (where \<^verbatim>\<open>internal\<close> is
  empty) by handling messages and by writes of the phase, a leader exit (pid = tgid)
  whose tgid is a key of \<^verbatim>\<open>internal\<close> removes that key and does nothing else: \<^verbatim>\<open>procs\<close>,
  the phase and the trace are unchanged, so \<^verbatim>\<open>shutdown\<close> is not called. The phase and the
  contents of the two maps are arbitrary. (The handler tests the length of the stored
  path; every path that is ever stored starts with \<^verbatim>\<open>/vorteil/\<close> and is not empty.)
\<close>

theorem internal_exit_only_removes:
  assumes "internal st0 = Map.empty" and "st = run ins st0"
    and "ProcessTgid hdr = ProcessPid hdr" and "ProcessTgid hdr \<in> dom (internal st)"
  shows "handleExit e hdr progs st = st\<lparr>internal := (internal st)(ProcessTgid hdr := None)\<rparr> \<and>
         internal (handleExit e hdr progs st) = (internal st)(ProcessTgid hdr := None) \<and>
         procs (handleExit e hdr progs st) = procs st \<and>
         initStatus (handleExit e hdr progs st) = initStatus st \<and>
         trace (handleExit e hdr progs st) = trace st"
proof -
  from assms(4) obtain s where s: "internal st (ProcessTgid hdr) = Some s"
    by auto
  have "\<forall>t s. internal st t = Some s \<longrightarrow> prefix ''/vorteil/'' s"
    unfolding assms(2) by (rule run_internal_paths) (simp add: assms(1))
  with s have "prefix ''/vorteil/'' s"
    by blast
  then have "s \<noteq> []"
    by auto
  with assms(3) s
  have "handleExit e hdr progs st = st\<lparr>internal := (internal st)(ProcessTgid hdr := None)\<rparr>"
    by (rule handleExit_internal_branch)
  then show ?thesis by simp
qed

theorem internal_exit_only_removes_witness:
  "internal (start statusLaunched) = Map.empty \<and>
   ProcessTgid (event_of (event_msg procEventExit 200 200)) =
     ProcessPid (event_of (event_msg procEventExit 200 200)) \<and>
   ProcessTgid (event_of (event_msg procEventExit 200 200)) \<in>
     dom (internal (run [Message (env_exe busboxScript) (event_msg procEventFork 200 200) []]
                      (start statusLaunched))) \<and>
   internal (handleExit (env_exe busboxScript) (event_of (event_msg procEventExit 200 200)) []
      (run [Message (env_exe busboxScript) (event_msg procEventFork 200 200) []]
         (start statusLaunched))) = Map.empty \<and>
   trace (handleExit (env_exe busboxScript) (event_of (event_msg procEventExit 200 200)) []
      (run [Message (env_exe busboxScript) (event_msg procEventFork 200 200) []]
         (start statusLaunched))) =
   trace (run [Message (env_exe busboxScript) (event_msg procEventFork 200 200) []]
         (start statusLaunched))"
  using internal_exit_only_removes [of "start statusLaunched"
      "run [Message (env_exe busboxScript) (event_msg procEventFork 200 200) []]
         (start statusLaunched)"
      "[Message (env_exe busboxScript) (event_msg procEventFork 200 200) []]"
      "event_of (event_msg procEventExit 200 200)" "env_exe busboxScript" "[]"]
  by (simp add: event_of_event_msg parse_fork_or_exec is_fork_or_exec_event_msg env_exe_def
      busboxScript_def goes_to_procs_def logDebug_simps start_def)

subsection \<open>The two maps\<close>

lemma step_respects_classification:
  assumes "classified_by app i"
    and "\<forall>t \<in> dom (procs st). app t" and "\<forall>t \<in> dom (internal st). \<not> app t"
  shows "(\<forall>t \<in> dom (procs (step i st)). app t) \<and> (\<forall>t \<in> dom (internal (step i st)). \<not> app t)"
proof (cases i)
  case (Message e m progs)
  consider "is_fork_or_exec m" | "is_exit m" | "\<not> is_fork_or_exec m" "\<not> is_exit m"
    by blast
  then show ?thesis
  proof cases
    case 1
    with Message assms show ?thesis
      by (auto simp: parse_fork_or_exec logDebug_simps split: option.splits if_splits)
  next
    case 2
    with Message assms show ?thesis
      by (auto simp: parse_exit dest!: handleExit_procs_Some handleExit_internal_Some)
  next
    case 3
    with Message assms show ?thesis
      by (simp add: parse_other)
  qed
next
  case (Status s)
  with assms show ?thesis by simp
qed

lemma run_respects_classification:
  "list_all (classified_by app) ins \<Longrightarrow>
   \<forall>t \<in> dom (procs st). app t \<Longrightarrow> \<forall>t \<in> dom (internal st). \<not> app t \<Longrightarrow>
   (\<forall>t \<in> dom (procs (run ins st)). app t) \<and> (\<forall>t \<in> dom (internal (run ins st)). \<not> app t)"
proof (induction ins arbitrary: st)
  case Nil
  then show ?case by simp
next
  case (Cons i ins)
  from Cons.prems have "classified_by app i" and rest: "list_all (classified_by app) ins"
    by simp_all
  with Cons.prems(2,3)
  have "(\<forall>t \<in> dom (procs (step i st)). app t) \<and> (\<forall>t \<in> dom (internal (step i st)). \<not> app t)"
    by (intro step_respects_classification)
  with Cons.IH [OF rest, of "step i st"] show ?case by simp
qed

text \<open>
  Claim C3, as amended. Starting with both maps empty, in every state reached by a run
  in which the resolved executable paths of each thread-group id always fall on the
  same side of the test of line 223 (all its fork and exec messages go to \<^verbatim>\<open>procs\<close>, or
  all go to \<^verbatim>\<open>internal\<close>), no id is a key of both maps. Exit messages, unresolved links
  and writes of the phase are unrestricted.
\<close>

theorem maps_disjoint_when_classified:
  assumes "procs st0 = Map.empty" and "internal st0 = Map.empty"
    and "list_all (classified_by app) ins"
  shows "dom (procs (run ins st0)) \<inter> dom (internal (run ins st0)) = {}"
proof -
  have "(\<forall>t \<in> dom (procs (run ins st0)). app t) \<and>
        (\<forall>t \<in> dom (internal (run ins st0)). \<not> app t)"
    using assms by (intro run_respects_classification) simp_all
  then show ?thesis by blast
qed

theorem maps_disjoint_when_classified_witness:
  "procs (start statusLaunching) = Map.empty \<and> internal (start statusLaunching) = Map.empty \<and>
   list_all (classified_by (\<lambda>t. t = 7))
     [Message (env_exe ''/vorteil/vinitd'') (event_msg procEventFork 8 8) [],
      Message (env_exe ''/bin/app'') (event_msg procEventExec 7 7) []] \<and>
   dom (procs (run [Message (env_exe ''/vorteil/vinitd'') (event_msg procEventFork 8 8) [],
                    Message (env_exe ''/bin/app'') (event_msg procEventExec 7 7) []]
              (start statusLaunching))) \<inter>
   dom (internal (run [Message (env_exe ''/vorteil/vinitd'') (event_msg procEventFork 8 8) [],
                       Message (env_exe ''/bin/app'') (event_msg procEventExec 7 7) []]
              (start statusLaunching))) = {}"
  using maps_disjoint_when_classified [of "start statusLaunching" "\<lambda>t. t = 7"
      "[Message (env_exe ''/vorteil/vinitd'') (event_msg procEventFork 8 8) [],
        Message (env_exe ''/bin/app'') (event_msg procEventExec 7 7) []]"]
  by (simp add: start_def is_fork_or_exec_event_msg event_of_event_msg env_exe_def
      goes_to_procs_def)

text \<open>
  Without that restriction the claim fails: a fork of process 7 while its executable is
  \<^verbatim>\<open>/vorteil/vinitd\<close> records it in \<^verbatim>\<open>internal\<close>, and an exec of the same process into
  \<^verbatim>\<open>/bin/app\<close> adds it to \<^verbatim>\<open>procs\<close>; nothing removes the first entry.
\<close>

theorem fork_then_exec_counterexample:
  "7 \<in> dom (procs (run [Message (env_exe ''/vorteil/vinitd'') (event_msg procEventFork 7 7) [],
                        Message (env_exe ''/bin/app'') (event_msg procEventExec 7 7) []]
                   (start statusLaunching))) \<inter>
       dom (internal (run [Message (env_exe ''/vorteil/vinitd'') (event_msg procEventFork 7 7) [],
                           Message (env_exe ''/bin/app'') (event_msg procEventExec 7 7) []]
                   (start statusLaunching)))"
  by (simp add: parse_fork_or_exec is_fork_or_exec_event_msg event_of_event_msg env_exe_def
      goes_to_procs_def logDebug_simps start_def)

subsection \<open>Exits when nothing is tracked\<close>

text \<open>With procs empty an exit never reaches shutdown.\<close>

lemma handleExit_procs_empty:
  assumes "dom (procs st) = {}"
  shows "dom (procs (handleExit e hdr progs st)) = {} \<and>
         actions (trace (handleExit e hdr progs st)) = actions (trace st) \<and>
         initStatus (handleExit e hdr progs st) = initStatus st"
proof (cases "initStatus st \<ge> statusLaunched")
  case True
  with assms show ?thesis
    by (simp add: handleExit_def logDebug_simps)
next
  case False
  then have "initStatus st < statusLaunched" by simp
  with assms handleExit_launching [of st e hdr progs] handleExit_dom(2) [of e hdr progs st]
  show ?thesis by simp
qed

lemma step_procs_empty:
  assumes "exit_or_status i" and "dom (procs st) = {}"
  shows "dom (procs (step i st)) = {} \<and> actions (trace (step i st)) = actions (trace st)"
  using assms handleExit_procs_empty
  by (cases i) (simp_all add: parse_exit)

lemma run_procs_empty:
  "list_all exit_or_status ins \<Longrightarrow> dom (procs st) = {} \<Longrightarrow>
   dom (procs (run ins st)) = {} \<and> actions (trace (run ins st)) = actions (trace st)"
proof (induction ins arbitrary: st)
  case Nil
  then show ?case by simp
next
  case (Cons i ins)
  from Cons.prems have i: "exit_or_status i" and rest: "list_all exit_or_status ins"
    by simp_all
  from step_procs_empty [OF i Cons.prems(2)]
  have 1: "dom (procs (step i st)) = {}" and 2: "actions (trace (step i st)) = actions (trace st)"
    by simp_all
  from Cons.IH [OF rest 1] 2 show ?case by simp
qed

lemma handleExit_still_starting:
  assumes "still_starting progs"
  shows "actions (trace (handleExit e hdr progs st)) = actions (trace st) \<and>
         initStatus (handleExit e hdr progs st) = initStatus st"
  using assms by (simp add: handleExit_def Let_def logDebug_simps)

lemma handleExit_removes:
  assumes "ProcessTgid hdr = ProcessPid hdr" and "ProcessTgid hdr \<notin> dom (internal st)"
    and "dom (procs st) \<noteq> {}"
  shows "dom (procs (handleExit e hdr progs st)) = dom (procs st) - {ProcessTgid hdr}"
proof -
  from assms(2) have "index_string (internal st) (ProcessTgid hdr) = []"
    by (auto simp: index_string_def split: option.splits)
  with assms(1,3) show ?thesis
    by (simp add: handleExit_def Let_def logDebug_simps logAlways_simps shutdown_frame
        del: dom_eq_empty_conv)
qed

text \<open>An input that does not register an application leaves an empty procs empty.\<close>

lemma is_exit_not_fork_or_exec: "is_exit m \<Longrightarrow> \<not> is_fork_or_exec m"
  by (auto simp: is_exit_def is_fork_or_exec_def procEventFork_def procEventExec_def
      procEventExit_def)

lemma step_procs_stay_empty:
  assumes "\<not> registers_app i" and "dom (procs st) = {}"
  shows "dom (procs (step i st)) = {} \<and> actions (trace (step i st)) = actions (trace st)"
proof (cases i)
  case (Message e m progs)
  consider "is_fork_or_exec m" | "is_exit m" | "\<not> is_fork_or_exec m" "\<not> is_exit m"
    by blast
  then show ?thesis
  proof cases
    case 1
    with Message assms show ?thesis
      by (auto simp: parse_fork_or_exec logDebug_simps split: option.splits)
  next
    case 2
    with Message assms handleExit_procs_empty [of st e "event_of m" progs] show ?thesis
      by (simp add: parse_exit)
  next
    case 3
    with Message assms show ?thesis
      by (simp add: parse_other)
  qed
next
  case (Status s)
  with assms show ?thesis by simp
qed

lemma run_procs_stay_empty:
  "\<forall>i \<in> set ins. \<not> registers_app i \<Longrightarrow> dom (procs st) = {} \<Longrightarrow>
   dom (procs (run ins st)) = {} \<and> actions (trace (run ins st)) = actions (trace st)"
proof (induction ins arbitrary: st)
  case Nil
  then show ?case by simp
next
  case (Cons i ins)
  from Cons.prems have i: "\<not> registers_app i" and rest: "\<forall>i \<in> set ins. \<not> registers_app i"
    by simp_all
  from step_procs_stay_empty [OF i Cons.prems(2)]
  have 1: "dom (procs (step i st)) = {}" and 2: "actions (trace (step i st)) = actions (trace st)"
    by simp_all
  from Cons.IH [OF rest 1] 2 show ?case by simp
qed

text \<open>
  Claim C10, as amended. Let a leader exit of a process that is not in \<^verbatim>\<open>internal\<close> remove
  the last key of \<^verbatim>\<open>procs\<close> while the phase is at least Launched and some program still
  has a nil command or process. Then that exit does not call \<^verbatim>\<open>shutdown\<close> (the trace gains
  log lines only) and leaves \<^verbatim>\<open>procs\<close> empty. From there on, as long as no fork or exec
  message registers a new application in \<^verbatim>\<open>procs\<close>, \<^verbatim>\<open>procs\<close> stays empty and \<^verbatim>\<open>shutdown\<close> is
  never called: whatever exit messages follow, with whatever program lists (also lists
  in which every program has started), whatever other messages (fork and exec messages
  that are recorded in \<^verbatim>\<open>internal\<close> or whose link does not resolve) and whatever writes of
  the phase in between. The emptiness of \<^verbatim>\<open>procs\<close> is not looked at again by itself.
\<close>

theorem lost_shutdown_not_retried:
  assumes "ProcessTgid hdr = ProcessPid hdr" and "ProcessTgid hdr \<notin> dom (internal st)"
    and "dom (procs st) = {ProcessTgid hdr}" and "statusLaunched \<le> initStatus st"
    and "still_starting progs" and "\<forall>i \<in> set later. \<not> registers_app i"
  shows "actions (trace (handleExit e hdr progs st)) = actions (trace st) \<and>
         dom (procs (handleExit e hdr progs st)) = {} \<and>
         dom (procs (run later (handleExit e hdr progs st))) = {} \<and>
         actions (trace (run later (handleExit e hdr progs st))) = actions (trace st) \<and>
         calls (trace (run later (handleExit e hdr progs st))) = calls (trace st)"
proof -
  let ?st = "handleExit e hdr progs st"
  have a: "actions (trace ?st) = actions (trace st)"
    using handleExit_still_starting [OF assms(5)] by simp
  have d: "dom (procs ?st) = {}"
    using handleExit_removes [OF assms(1,2), of e progs] assms(3) by simp
  from run_procs_stay_empty [OF assms(6) d]
  have r: "dom (procs (run later ?st)) = {}"
    "actions (trace (run later ?st)) = actions (trace ?st)"
    by simp_all
  from r(2) a have "actions (trace (run later ?st)) = actions (trace st)"
    by simp
  then have "calls (actions (trace (run later ?st))) = calls (actions (trace st))"
    by simp
  then have "calls (trace (run later ?st)) = calls (trace st)"
    by (simp add: calls_actions)
  with a d r show ?thesis by simp
qed

theorem lost_shutdown_not_retried_witness:
  "ProcessTgid (event_of (event_msg procEventExit 100 100)) =
     ProcessPid (event_of (event_msg procEventExit 100 100)) \<and>
   ProcessTgid (event_of (event_msg procEventExit 100 100)) \<notin>
     dom (internal ((start statusLaunched)\<lparr>procs := [100 \<mapsto> 100]\<rparr>)) \<and>
   dom (procs ((start statusLaunched)\<lparr>procs := [100 \<mapsto> 100]\<rparr>)) =
     {ProcessTgid (event_of (event_msg procEventExit 100 100))} \<and>
   statusLaunched \<le> initStatus ((start statusLaunched)\<lparr>procs := [100 \<mapsto> 100]\<rparr>) \<and>
   still_starting [Program None] \<and>
   \<not> registers_app (Message (env_exe ''/bin/app'') (event_msg procEventExit 100 100)
        [Program (Some (Cmd (Some 100)))]) \<and>
   \<not> registers_app (Status statusLaunched) \<and>
   \<not> registers_app (Message (env_exe ''/vorteil/vinitd'') (event_msg procEventFork 1 1)
        [Program (Some (Cmd (Some 100)))]) \<and>
   \<not> registers_app (Message (env_exe ''/bin/app'') (event_msg procEventExit 101 101)
        [Program (Some (Cmd (Some 100)))]) \<and>
   calls (trace (run
     [Message (env_exe ''/bin/app'') (event_msg procEventExit 100 100)
        [Program (Some (Cmd (Some 100)))], Status statusLaunched,
      Message (env_exe ''/vorteil/vinitd'') (event_msg procEventFork 1 1)
        [Program (Some (Cmd (Some 100)))],
      Message (env_exe ''/bin/app'') (event_msg procEventExit 101 101)
        [Program (Some (Cmd (Some 100)))]]
     (handleExit (env_exe ''/bin/app'') (event_of (event_msg procEventExit 100 100))
        [Program None] ((start statusLaunched)\<lparr>procs := [100 \<mapsto> 100]\<rparr>)))) = 0"
  using lost_shutdown_not_retried [of "event_of (event_msg procEventExit 100 100)"
      "(start statusLaunched)\<lparr>procs := [100 \<mapsto> 100]\<rparr>" "[Program None]"
      "[Message (env_exe ''/bin/app'') (event_msg procEventExit 100 100)
          [Program (Some (Cmd (Some 100)))], Status statusLaunched,
        Message (env_exe ''/vorteil/vinitd'') (event_msg procEventFork 1 1)
          [Program (Some (Cmd (Some 100)))],
        Message (env_exe ''/bin/app'') (event_msg procEventExit 101 101)
          [Program (Some (Cmd (Some 100)))]]" "env_exe ''/bin/app''"]
  by (simp add: event_of_event_msg is_exit_event_msg is_exit_not_fork_or_exec
      is_fork_or_exec_event_msg env_exe_def goes_to_procs_def start_def calls_def)

text \<open>
  The claim as first stated fails. After the exit of process 100 has emptied \<^verbatim>\<open>procs\<close>
  while a program was still starting (no call of \<^verbatim>\<open>shutdown\<close>), an exec of process 101 into
  \<^verbatim>\<open>/bin/b\<close> registers it, and its exit, handled when every program has started, calls
  \<^verbatim>\<open>shutdown\<close> and reaches the reboot call.
\<close>

theorem later_registration_counterexample:
  "calls (trace (handleExit (env_exe ''/bin/app'') (event_of (event_msg procEventExit 100 100))
        [Program None] ((start statusLaunched)\<lparr>procs := [100 \<mapsto> 100]\<rparr>))) = 0 \<and>
   dom (procs (handleExit (env_exe ''/bin/app'') (event_of (event_msg procEventExit 100 100))
        [Program None] ((start statusLaunched)\<lparr>procs := [100 \<mapsto> 100]\<rparr>))) = {} \<and>
   calls (trace (run
     [Message (env_exe ''/bin/b'') (event_msg procEventExec 101 101)
        [Program (Some (Cmd (Some 100)))],
      Message (env_exe ''/bin/b'') (event_msg procEventExit 101 101)
        [Program (Some (Cmd (Some 100)))]]
     (handleExit (env_exe ''/bin/app'') (event_of (event_msg procEventExit 100 100))
        [Program None] ((start statusLaunched)\<lparr>procs := [100 \<mapsto> 100]\<rparr>)))) = 1 \<and>
   reboots (trace (run
     [Message (env_exe ''/bin/b'') (event_msg procEventExec 101 101)
        [Program (Some (Cmd (Some 100)))],
      Message (env_exe ''/bin/b'') (event_msg procEventExit 101 101)
        [Program (Some (Cmd (Some 100)))]]
     (handleExit (env_exe ''/bin/app'') (event_of (event_msg procEventExit 100 100))
        [Program None] ((start statusLaunched)\<lparr>procs := [100 \<mapsto> 100]\<rparr>)))) = 1"
  by (simp add: event_of_event_msg handleExit_def index_string_def Let_def start_def
      statusLaunched_def statusPoweroff_def logDebug_simps logAlways_simps count_log_simps
      parse_fork_or_exec parse_exit is_fork_or_exec_event_msg is_exit_event_msg env_exe_def
      goes_to_procs_def shutdown_frame counts_Nil)

subsection \<open>From registration to the last exit\<close>

text \<open>Registering applications.\<close>

lemma step_registers_app:
  assumes "registers_app i"
  shows "dom (procs (step i st)) = dom (procs st) \<union> set (registered [i]) \<and>
         internal (step i st) = internal st \<and>
         initStatus (step i st) = initStatus st \<and>
         actions (trace (step i st)) = actions (trace st)"
  using assms
  by (cases i) (auto simp: parse_fork_or_exec logDebug_simps split: option.splits)

lemma registered_Cons: "registered (i # ins) = registered [i] @ registered ins"
  by (cases i) simp_all

lemma run_registers_app:
  "list_all registers_app ins \<Longrightarrow>
   dom (procs (run ins st)) = dom (procs st) \<union> set (registered ins) \<and>
   internal (run ins st) = internal st \<and>
   initStatus (run ins st) = initStatus st \<and>
   actions (trace (run ins st)) = actions (trace st)"
proof (induction ins arbitrary: st)
  case Nil
  then show ?case by simp
next
  case (Cons i ins)
  from Cons.prems have i: "registers_app i" and rest: "list_all registers_app ins"
    by simp_all
  from step_registers_app [OF i, of st] Cons.IH [OF rest, of "step i st"]
  show ?case
    by (subst registered_Cons) (auto simp del: registered.simps)
qed

lemma registered_nonempty: "list_all registers_app ins \<Longrightarrow> ins \<noteq> [] \<Longrightarrow> registered ins \<noteq> []"
  by (cases ins rule: registered.cases) simp_all

lemma run_append: "run (xs @ ys) st = run ys (run xs st)"
  by (induction xs arbitrary: st) simp_all

text \<open>The exit that empties procs once all programs have started.\<close>

lemma handleExit_last:
  assumes "ProcessTgid hdr = ProcessPid hdr" and "ProcessTgid hdr \<notin> dom (internal st)"
    and "dom (procs st) \<noteq> {}" and "dom (procs st) \<subseteq> {ProcessTgid hdr}"
    and "statusLaunched \<le> initStatus st" and "\<not> still_starting progs"
  shows "calls (trace (handleExit e hdr progs st)) = Suc (calls (trace st)) \<and>
         reboots (trace (handleExit e hdr progs st)) =
           (if initStatus st = statusPoweroff then reboots (trace st)
            else Suc (reboots (trace st))) \<and>
         internal (handleExit e hdr progs st) = internal st"
proof -
  from assms(2) have "index_string (internal st) (ProcessTgid hdr) = []"
    by (auto simp: index_string_def split: option.splits)
  moreover from assms(4) have "dom (procs st) - {ProcessPid hdr} = {}"
    using assms(1) by auto
  ultimately show ?thesis
    using assms(1,3,5,6)
    by (simp add: handleExit_def Let_def logDebug_simps logAlways_simps shutdown_frame
        count_log_simps del: dom_eq_empty_conv)
qed

lemma handleExit_not_last:
  assumes "ProcessTgid hdr = ProcessPid hdr" and "ProcessTgid hdr \<notin> dom (internal st)"
    and "\<not> dom (procs st) \<subseteq> {ProcessTgid hdr}"
  shows "actions (trace (handleExit e hdr progs st)) = actions (trace st) \<and>
         initStatus (handleExit e hdr progs st) = initStatus st \<and>
         internal (handleExit e hdr progs st) = internal st"
proof -
  from assms(2) have "index_string (internal st) (ProcessTgid hdr) = []"
    by (auto simp: index_string_def split: option.splits)
  moreover from assms(3) have "dom (procs st) - {ProcessPid hdr} \<noteq> {}" "dom (procs st) \<noteq> {}"
    using assms(1) by auto
  ultimately show ?thesis
    using assms(1)
    by (simp add: handleExit_def Let_def logDebug_simps del: dom_eq_empty_conv)
qed

lemma exit_started_exit_or_status: "list_all exit_started ins \<Longrightarrow> list_all exit_or_status ins"
proof (induction ins)
  case Nil
  then show ?case by simp
next
  case (Cons i ins)
  then show ?case by (cases i) simp_all
qed

lemma counts_of_actions:
  "actions (trace st') = actions (trace st) \<Longrightarrow>
   calls (trace st') = calls (trace st) \<and> reboots (trace st') = reboots (trace st)"
  using calls_actions [of "trace st'"] calls_actions [of "trace st"]
    reboots_actions [of "trace st'"] reboots_actions [of "trace st"]
  by simp

lemma run_exits:
  "list_all exit_started exits \<Longrightarrow> dom (internal st) = {} \<Longrightarrow>
   statusLaunched \<le> initStatus st \<Longrightarrow> dom (procs st) \<noteq> {} \<Longrightarrow>
   dom (procs st) \<subseteq> set (leader_exits exits) \<Longrightarrow>
   dom (procs (run exits st)) = {} \<and>
   calls (trace (run exits st)) = Suc (calls (trace st)) \<and>
   reboots (trace (run exits st)) =
     (if initStatus st = statusPoweroff then reboots (trace st) else Suc (reboots (trace st)))"
proof (induction exits arbitrary: st)
  case Nil
  then show ?case by simp
next
  case (Cons i ins)
  from Cons.prems(1) obtain e m progs where i: "i = Message e m progs"
    and ex: "is_exit m" and started: "\<not> still_starting progs"
    and rest: "list_all exit_started ins"
    by (cases i) simp_all
  let ?hdr = "event_of m"
  let ?st = "handleExit e ?hdr progs st"
  have step: "step i st = ?st"
    using i ex by (simp add: parse_exit)
  show ?case
  proof (cases "ProcessTgid ?hdr = ProcessPid ?hdr")
    case False
    then have same: "?st = st"
      by (simp add: handleExit_not_leader)
    from False i Cons.prems(5) have "dom (procs st) \<subseteq> set (leader_exits ins)"
      by simp
    from Cons.IH [OF rest Cons.prems(2,3,4) this] step same show ?thesis
      by simp
  next
    case True
    have notint: "ProcessTgid ?hdr \<notin> dom (internal st)"
      using Cons.prems(2) by simp
    have dom': "dom (procs ?st) = dom (procs st) - {ProcessTgid ?hdr}"
      using handleExit_removes [OF True notint Cons.prems(4)] .
    show ?thesis
    proof (cases "dom (procs st) \<subseteq> {ProcessTgid ?hdr}")
      case last: True
      from handleExit_last [OF True notint Cons.prems(4) last Cons.prems(3) started, of e]
      have c: "calls (trace ?st) = Suc (calls (trace st))"
        and r: "reboots (trace ?st) =
          (if initStatus st = statusPoweroff then reboots (trace st)
           else Suc (reboots (trace st)))"
        by simp_all
      from last dom' have empty: "dom (procs ?st) = {}"
        by auto
      from run_procs_empty [OF exit_started_exit_or_status [OF rest] empty]
      have "dom (procs (run ins ?st)) = {}"
        and "actions (trace (run ins ?st)) = actions (trace ?st)"
        by simp_all
      with counts_of_actions [of "run ins ?st" ?st] c r step show ?thesis
        by simp
    next
      case notlast: False
      from handleExit_not_last [OF True notint notlast, of e progs]
      have a: "actions (trace ?st) = actions (trace st)"
        and s: "initStatus ?st = initStatus st"
        and n: "internal ?st = internal st"
        by simp_all
      from notlast dom' have ne: "dom (procs ?st) \<noteq> {}"
        by auto
      from True i ex Cons.prems(5) dom'
      have sub: "dom (procs ?st) \<subseteq> set (leader_exits ins)"
        by auto
      from Cons.prems(2) n have int': "dom (internal ?st) = {}"
        by simp
      from Cons.prems(3) s have st': "statusLaunched \<le> initStatus ?st"
        by simp
      from Cons.IH [OF rest int' st' ne sub] counts_of_actions [OF a] s step
      show ?thesis by simp
    qed
  qed
qed

text \<open>
  Claim C2. Start with both maps empty. Let a non-empty list of fork and exec messages
  each register an application (the link resolves to a path that goes to \<^verbatim>\<open>procs\<close>); let
  the phase then be set to a value that is at least Launched; and let exit messages
  follow, each handled while every program has its command and process, among them a
  leader exit (pid = tgid) for every registered id, in any order, with any further exits
  of threads or of other processes before, between and after them. Then \<^verbatim>\<open>procs\<close> holds
  exactly the registered ids after the registrations and is empty at the end, and over
  the whole run \<^verbatim>\<open>shutdown\<close> is called exactly once; the reboot call is made exactly once
  (not at all when the phase was already PoweringOff, where the guard of \<^verbatim>\<open>shutdown\<close>
  returns).
\<close>

theorem all_exited_one_shutdown:
  assumes "procs st0 = Map.empty" and "internal st0 = Map.empty"
    and "forks \<noteq> []" and "list_all registers_app forks"
    and "statusLaunched \<le> s"
    and "list_all exit_started exits"
    and "set (registered forks) \<subseteq> set (leader_exits exits)"
  shows "dom (procs (run forks st0)) = set (registered forks) \<and>
         dom (procs (run (forks @ Status s # exits) st0)) = {} \<and>
         calls (trace (run (forks @ Status s # exits) st0)) = Suc (calls (trace st0)) \<and>
         reboots (trace (run (forks @ Status s # exits) st0)) =
           (if s = statusPoweroff then reboots (trace st0) else Suc (reboots (trace st0)))"
proof -
  let ?st1 = "run forks st0"
  let ?st2 = "?st1\<lparr>initStatus := s\<rparr>"
  from run_registers_app [OF assms(4), of st0] assms(1,2)
  have d: "dom (procs ?st1) = set (registered forks)"
    and n: "internal ?st1 = Map.empty"
    and a: "actions (trace ?st1) = actions (trace st0)"
    by simp_all
  from registered_nonempty [OF assms(4,3)] d have ne: "dom (procs ?st2) \<noteq> {}"
    by simp
  from d assms(7) have sub: "dom (procs ?st2) \<subseteq> set (leader_exits exits)"
    by simp
  from n have int: "dom (internal ?st2) = {}"
    by simp
  from assms(5) have st: "statusLaunched \<le> initStatus ?st2"
    by simp
  have "run (forks @ Status s # exits) st0 = run exits ?st2"
    by (simp add: run_append)
  with run_exits [OF assms(6) int st ne sub] counts_of_actions [OF a] d
  show ?thesis by simp
qed

theorem all_exited_one_shutdown_witness:
  "procs (start statusLaunching) = Map.empty \<and> internal (start statusLaunching) = Map.empty \<and>
   [Message (env_exe ''/bin/app'') (event_msg procEventFork 100 100) [],
    Message (env_exe ''/bin/app'') (event_msg procEventExec 101 101) []] \<noteq> [] \<and>
   list_all registers_app
     [Message (env_exe ''/bin/app'') (event_msg procEventFork 100 100) [],
      Message (env_exe ''/bin/app'') (event_msg procEventExec 101 101) []] \<and>
   statusLaunched \<le> statusLaunched \<and>
   list_all exit_started
     [Message (env_exe ''/bin/app'') (event_msg procEventExit 101 101) [Program (Some (Cmd (Some 100)))],
      Message (env_exe ''/bin/app'') (event_msg procEventExit 100 100) [Program (Some (Cmd (Some 100)))],
      Message (env_exe ''/bin/app'') (event_msg procEventExit 100 100) [Program (Some (Cmd (Some 100)))]] \<and>
   set (registered
     [Message (env_exe ''/bin/app'') (event_msg procEventFork 100 100) [],
      Message (env_exe ''/bin/app'') (event_msg procEventExec 101 101) []]) \<subseteq>
   set (leader_exits
     [Message (env_exe ''/bin/app'') (event_msg procEventExit 101 101) [Program (Some (Cmd (Some 100)))],
      Message (env_exe ''/bin/app'') (event_msg procEventExit 100 100) [Program (Some (Cmd (Some 100)))],
      Message (env_exe ''/bin/app'') (event_msg procEventExit 100 100) [Program (Some (Cmd (Some 100)))]]) \<and>
   calls (trace (run
     ([Message (env_exe ''/bin/app'') (event_msg procEventFork 100 100) [],
       Message (env_exe ''/bin/app'') (event_msg procEventExec 101 101) []] @
      Status statusLaunched #
      [Message (env_exe ''/bin/app'') (event_msg procEventExit 101 101) [Program (Some (Cmd (Some 100)))],
       Message (env_exe ''/bin/app'') (event_msg procEventExit 100 100) [Program (Some (Cmd (Some 100)))],
       Message (env_exe ''/bin/app'') (event_msg procEventExit 100 100) [Program (Some (Cmd (Some 100)))]])
     (start statusLaunching))) = 1 \<and>
   reboots (trace (run
     ([Message (env_exe ''/bin/app'') (event_msg procEventFork 100 100) [],
       Message (env_exe ''/bin/app'') (event_msg procEventExec 101 101) []] @
      Status statusLaunched #
      [Message (env_exe ''/bin/app'') (event_msg procEventExit 101 101) [Program (Some (Cmd (Some 100)))],
       Message (env_exe ''/bin/app'') (event_msg procEventExit 100 100) [Program (Some (Cmd (Some 100)))],
       Message (env_exe ''/bin/app'') (event_msg procEventExit 100 100) [Program (Some (Cmd (Some 100)))]])
     (start statusLaunching))) = 1"
  using all_exited_one_shutdown [of "start statusLaunching"
      "[Message (env_exe ''/bin/app'') (event_msg procEventFork 100 100) [],
        Message (env_exe ''/bin/app'') (event_msg procEventExec 101 101) []]"
      statusLaunched
      "[Message (env_exe ''/bin/app'') (event_msg procEventExit 101 101) [Program (Some (Cmd (Some 100)))],
        Message (env_exe ''/bin/app'') (event_msg procEventExit 100 100) [Program (Some (Cmd (Some 100)))],
        Message (env_exe ''/bin/app'') (event_msg procEventExit 100 100) [Program (Some (Cmd (Some 100)))]]"]
  by (simp add: start_def is_fork_or_exec_event_msg is_exit_event_msg event_of_event_msg
      env_exe_def goes_to_procs_def statusLaunched_def statusPoweroff_def calls_def reboots_def)

subsection \<open>Two callers at the guard\<close>

text \<open>The three steps of one caller, run without interruption, are shutdown.\<close>

lemma shutdown_split:
  "shutdown e c t st =
     snd (caller_step (e, c, t) (caller_step (e, c, t) (caller_step (e, c, t) (At_guard, st))))"
  by (simp add: shutdown_def shutdown_steps_def Let_def emit_simps)

lemma shutdown_steps_frame:
  "procs (shutdown_steps e t st) = procs st \<and>
   internal (shutdown_steps e t st) = internal st \<and>
   initStatus (shutdown_steps e t st) = statusPoweroff \<and>
   calls (trace (shutdown_steps e t st)) = calls (trace st) \<and>
   reboots (trace (shutdown_steps e t st)) = reboots (trace st)"
  by (simp add: shutdown_steps_def Let_def emit_simps calls_emit reboots_emit killAll_frame
      countdown_frame logAlways_simps logError_simps count_log_simps split: sum.split)

text \<open>One call after the other: the second returns at its guard.\<close>

lemma shutdown_twice_in_sequence:
  "initStatus st \<noteq> statusPoweroff \<Longrightarrow>
   reboots (trace (shutdown e2 c2 t2 (shutdown e1 c1 t1 st))) = Suc (reboots (trace st)) \<and>
   calls (trace (shutdown e2 c2 t2 (shutdown e1 c1 t1 st))) = Suc (Suc (calls (trace st)))"
  by (simp add: shutdown_frame)

lemma race_in_sequence:
  "snd (snd (race (e1, c1, t1) (e2, c2, t2) [True, True, True, False, False, False]
               (At_guard, At_guard, st))) =
   shutdown e2 c2 t2 (shutdown e1 c1 t1 st)"
  by (cases "initStatus st = statusPoweroff")
    (simp_all add: shutdown_def shutdown_steps_def Let_def emit_simps split: sum.split)

text \<open>Both callers read the phase before either writes it.\<close>

lemma race_both_pass_guard:
  assumes "initStatus st \<noteq> statusPoweroff"
  shows "fst (race a b [True, False, True, False, True, False] (At_guard, At_guard, st)) = Returned \<and>
         fst (snd (race a b [True, False, True, False, True, False] (At_guard, At_guard, st))) = Returned \<and>
         reboots (trace (snd (snd (race a b [True, False, True, False, True, False]
            (At_guard, At_guard, st))))) = Suc (Suc (reboots (trace st)))"
  using assms
  by (cases a; cases b)
    (simp add: emit_simps reboots_emit shutdown_steps_frame split: prod.split)

text \<open>
  Claim C4 does not hold of the code. With the phase at Launched, let the exit handler
  call \<^verbatim>\<open>shutdown(LINUX_REBOOT_CMD_POWER_OFF, 0)\<close> and \<^verbatim>\<open>SystemPanic\<close> call \<^verbatim>\<open>shutdown\<close> with a
  timeout, and let both read \<^verbatim>\<open>initStatus\<close> at line 92 before either writes it at line 96.
  Then neither caller returns at the guard: both perform the signals, the sleeps, the
  sysrq writes and the flush (the trace holds two flushes before any reboot call), both
  arrive at line 120, and the reboot call is made twice when the first one returns.
  The guard gives "at most once" only to calls that follow one another, as
  \<open>shutdown_twice_in_sequence\<close> shows.
\<close>

theorem two_callers_both_reboot:
  "fst (race (env_exe ''/bin/app'', LINUX_REBOOT_CMD_POWER_OFF, 0)
             (env_exe ''/bin/app'', LINUX_REBOOT_CMD_POWER_OFF, 1000)
          [True, False, True, False] (At_guard, At_guard, start statusLaunched)) = At_reboot \<and>
   fst (snd (race (env_exe ''/bin/app'', LINUX_REBOOT_CMD_POWER_OFF, 0)
             (env_exe ''/bin/app'', LINUX_REBOOT_CMD_POWER_OFF, 1000)
          [True, False, True, False] (At_guard, At_guard, start statusLaunched))) = At_reboot \<and>
   count_list (trace (snd (snd (race (env_exe ''/bin/app'', LINUX_REBOOT_CMD_POWER_OFF, 0)
             (env_exe ''/bin/app'', LINUX_REBOOT_CMD_POWER_OFF, 1000)
          [True, False, True, False] (At_guard, At_guard, start statusLaunched)))))
      (FlushDisk ''/dev/sda'') = 2 \<and>
   reboots (trace (snd (snd (race (env_exe ''/bin/app'', LINUX_REBOOT_CMD_POWER_OFF, 0)
             (env_exe ''/bin/app'', LINUX_REBOOT_CMD_POWER_OFF, 1000)
          [True, False, True, False, True, False] (At_guard, At_guard, start statusLaunched))))) = 2"
  by (simp add: start_def env_exe_def statusLaunched_def statusPoweroff_def emit_def
      shutdown_steps_def Let_def killAll_def logAlways_def vlog_def countdown.simps reboots_def)

end
